theory Spec2Isabelle
  imports Main
begin

section \<open>JavaScript values and the object store\<close>

text \<open>
  The utilities of \<^verbatim>\<open>src/utils/objectUtils.js\<close> work on plain objects and arrays, compare
  them by reference identity and (in \<^verbatim>\<open>align\<close> and \<^verbatim>\<open>copyObject\<close>) mutate them in place.
  The embedding therefore keeps an explicit store: an object lives at an address, a value
  is a primitive or a reference to an address, and allocation appends to the store.

  Numbers are the integers together with \<^verbatim>\<open>NaN\<close> (which is not strictly equal to itself);
  floating point is outside the model. An object is one of three kinds: a plain object
  (\<^verbatim>\<open>isPlainObject\<close> holds), an array (\<^verbatim>\<open>Array.isArray\<close> holds; a slot is a value or an empty
  slot), or any other object (a date, a function, a class instance), which the utilities
  never look into. The store holds the own enumerable properties: the list of a plain
  object is its \<^verbatim>\<open>Object.keys\<close> order. What a read finds beyond them, along the prototype
  chain, is a parameter of the reads that can meet it (see \<open>js_read\<close>).
\<close>

type_synonym addr = nat

datatype jsval =
    VUndefined
  | VNull
  | VBool bool
  | VNum int
  | VNaN
  | VStr string
  | VRef addr

datatype jsobj =
    Plain "(string \<times> jsval) list"
  | Arr "jsval option list"
  | Other "(string \<times> jsval) list"

type_synonym heap = "jsobj list"

datatype error =
    InvalidInput
  | UnrecognizedPathType jsval
  | TypeError
  | Unsupported

text \<open>
  \<^verbatim>\<open>InvalidInput\<close> is \<^verbatim>\<open>Error('The input must be an object.')\<close>, \<^verbatim>\<open>UnrecognizedPathType p\<close> is
  \<^verbatim>\<open>Error('unrecognized pathType ' + p)\<close>, \<^verbatim>\<open>TypeError\<close> is the engine's own exception (a
  property access on \<^verbatim>\<open>undefined\<close> or \<^verbatim>\<open>null\<close>). \<^verbatim>\<open>Unsupported\<close> marks an input on which the
  behaviour of JavaScript is outside this embedding.

  A computation with effects returns one of three outcomes, each with the state it
  reached: a value, an exception, or no result because the recursion budget ran out.
\<close>

datatype ('a, 's) outcome =
    Returned 'a 's
  | Thrown error 's
  | Diverged

definition lookup :: "heap \<Rightarrow> addr \<Rightarrow> jsobj option" where
  "lookup h a = (if a < length h then Some (h ! a) else None)"

definition alloc :: "heap \<Rightarrow> jsobj \<Rightarrow> addr \<times> heap" where
  "alloc h obj = (length h, h @ [obj])"

text \<open>The strict equality operator \<^verbatim>\<open>a === b\<close>.\<close>

definition strictEqual :: "jsval \<Rightarrow> jsval \<Rightarrow> bool" where
  "strictEqual a b = (a = b \<and> a \<noteq> VNaN)"

text \<open>Truthiness, as an \<^verbatim>\<open>if\<close> tests it.\<close>

fun truthy :: "jsval \<Rightarrow> bool" where
  "truthy VUndefined = False"
| "truthy VNull = False"
| "truthy (VBool b) = b"
| "truthy (VNum n) = (n \<noteq> 0)"
| "truthy VNaN = False"
| "truthy (VStr s) = (s \<noteq> [])"
| "truthy (VRef a) = True"

subsection \<open>Property keys\<close>

text \<open>
  Property keys are strings. The key of array slot \<open>i\<close> is the decimal numeral of \<open>i\<close>, and
  a key is an array index when it is such a numeral (no sign, no leading zero).
\<close>

definition digit_char :: "nat \<Rightarrow> char" where
  "digit_char d = ''0123456789'' ! d"

definition digit_val :: "char \<Rightarrow> nat option" where
  "digit_val c = map_of (zip ''0123456789'' [0, 1, 2, 3, 4, 5, 6, 7, 8, 9]) c"

fun string_of_nat :: "nat \<Rightarrow> string" where
  "string_of_nat n =
     (if n < 10 then [digit_char n]
      else string_of_nat (n div 10) @ [digit_char (n mod 10)])"

declare string_of_nat.simps [simp del]

definition string_of_int :: "int \<Rightarrow> string" where
  "string_of_int i = (if i < 0 then CHR ''-'' # string_of_nat (nat (- i)) else string_of_nat (nat i))"

fun digits_val :: "nat \<Rightarrow> string \<Rightarrow> nat option" where
  "digits_val acc [] = Some acc"
| "digits_val acc (c # cs) =
     (case digit_val c of None \<Rightarrow> None | Some d \<Rightarrow> digits_val (10 * acc + d) cs)"

definition array_index :: "string \<Rightarrow> nat option" where
  "array_index s =
     (if s = [] \<or> (1 < length s \<and> hd s = CHR ''0'') then None else digits_val 0 s)"

subsection \<open>Reading objects\<close>

text \<open>\<^verbatim>\<open>Object.keys(obj)\<close>: for an array, the indices of the slots that are not empty.\<close>

fun own_keys :: "jsobj \<Rightarrow> string list" where
  "own_keys (Plain ps) = map fst ps"
| "own_keys (Arr es) = map string_of_nat (filter (\<lambda>i. es ! i \<noteq> None) [0..<length es])"
| "own_keys (Other ps) = map fst ps"

definition get_prop :: "(string \<times> jsval) list \<Rightarrow> string \<Rightarrow> jsval" where
  "get_prop ps k = (case map_of ps k of None \<Rightarrow> VUndefined | Some v \<Rightarrow> v)"

definition get_slot :: "jsval option list \<Rightarrow> nat \<Rightarrow> jsval" where
  "get_slot es i = (if i < length es then (case es ! i of None \<Rightarrow> VUndefined | Some v \<Rightarrow> v) else VUndefined)"

text \<open>\<^verbatim>\<open>obj[k]\<close> on an object of the store. An array answers its indices and \<^verbatim>\<open>length\<close>.\<close>

fun get_own :: "jsobj \<Rightarrow> string \<Rightarrow> jsval" where
  "get_own (Plain ps) k = get_prop ps k"
| "get_own (Arr es) k =
     (if k = ''length'' then VNum (int (length es))
      else (case array_index k of None \<Rightarrow> VUndefined | Some i \<Rightarrow> get_slot es i))"
| "get_own (Other ps) k = get_prop ps k"

text \<open>
  \<^verbatim>\<open>v[k]\<close> for a key \<open>k\<close> taken from \<^verbatim>\<open>Object.keys(v)\<close>, which is how \<^verbatim>\<open>_walkObject\<close> and
  \<^verbatim>\<open>copyObject\<close> read: the value of the own property. A reference outside the store does
  not arise in a store built by allocation; it reads as an object without properties.
\<close>

definition js_get :: "heap \<Rightarrow> jsval \<Rightarrow> string \<Rightarrow> jsval" where
  "js_get h v k =
     (case v of
        VRef a \<Rightarrow> (case lookup h a of None \<Rightarrow> VUndefined | Some obj \<Rightarrow> get_own obj k)
      | _ \<Rightarrow> VUndefined)"

text \<open>
  \<^verbatim>\<open>v[k]\<close> for any key: JavaScript looks for an own property and then along the prototype
  chain of \<open>v\<close>. The prototypes are not objects of the store. They are given by a function
  of the environment: \<open>inh v k\<close> is what \<^verbatim>\<open>v[k]\<close> answers when \<open>k\<close> is not one of the own
  properties held in the store, that is a property found on a prototype (a method of
  \<^verbatim>\<open>Object.prototype\<close> or \<^verbatim>\<open>Array.prototype\<close>), the length or a character of a string, or
  \<^verbatim>\<open>undefined\<close> when there is none. An own property hides an inherited one.
\<close>

type_synonym inherited = "jsval \<Rightarrow> string \<Rightarrow> jsval"

fun has_own :: "jsobj \<Rightarrow> string \<Rightarrow> bool" where
  "has_own (Plain ps) k = (k \<in> fst ` set ps)"
| "has_own (Arr es) k =
     (k = ''length''
      \<or> (case array_index k of None \<Rightarrow> False | Some i \<Rightarrow> i < length es \<and> es ! i \<noteq> None))"
| "has_own (Other ps) k = (k \<in> fst ` set ps)"

definition js_read :: "inherited \<Rightarrow> heap \<Rightarrow> jsval \<Rightarrow> string \<Rightarrow> jsval" where
  "js_read inh h v k =
     (case v of
        VRef a \<Rightarrow>
          (case lookup h a of
             None \<Rightarrow> inh v k
           | Some obj \<Rightarrow> if has_own obj k then get_own obj k else inh v k)
      | _ \<Rightarrow> inh v k)"

text \<open>
  The environment in which nothing is inherited, for the examples whose keys no
  prototype has.
\<close>

definition no_inherited :: inherited where
  "no_inherited v k = VUndefined"

definition isPlainObject :: "heap \<Rightarrow> jsval \<Rightarrow> bool" where
  "isPlainObject h v =
     (case v of
        VRef a \<Rightarrow> (case lookup h a of Some (Plain ps) \<Rightarrow> True | _ \<Rightarrow> False)
      | _ \<Rightarrow> False)"

definition isArray :: "heap \<Rightarrow> jsval \<Rightarrow> bool" where
  "isArray h v =
     (case v of
        VRef a \<Rightarrow> (case lookup h a of Some (Arr es) \<Rightarrow> True | _ \<Rightarrow> False)
      | _ \<Rightarrow> False)"

section \<open>The functions of ramda that shallowEqual uses\<close>

text \<open>
  \<^verbatim>\<open>keys\<close> of ramda returns the own enumerable keys of an object and the empty list for a
  primitive. \<^verbatim>\<open>prop(k, obj)\<close> reads \<^verbatim>\<open>obj[k]\<close>, an own or an inherited property; on \<^verbatim>\<open>undefined\<close>
  and \<^verbatim>\<open>null\<close> the releases of ramda differ (older ones read the property and raise a
  \<^verbatim>\<open>TypeError\<close>, newer ones answer \<^verbatim>\<open>undefined\<close>), so the model takes that choice as the
  parameter \<open>safe\<close>.
\<close>

definition R_keys :: "heap \<Rightarrow> jsval \<Rightarrow> string list" where
  "R_keys h v =
     (case v of
        VRef a \<Rightarrow> (case lookup h a of None \<Rightarrow> [] | Some obj \<Rightarrow> own_keys obj)
      | _ \<Rightarrow> [])"

definition R_prop :: "bool \<Rightarrow> inherited \<Rightarrow> heap \<Rightarrow> string \<Rightarrow> jsval \<Rightarrow> error + jsval" where
  "R_prop safe inh h k v =
     (if v = VUndefined \<or> v = VNull then (if safe then Inr VUndefined else Inl TypeError)
      else Inr (js_read inh h v k))"

text \<open>\<^verbatim>\<open>Array.prototype.map\<close> with a callback that may raise: the first exception wins.\<close>

fun map_throwing :: "('a \<Rightarrow> error + 'b) \<Rightarrow> 'a list \<Rightarrow> error + 'b list" where
  "map_throwing f [] = Inr []"
| "map_throwing f (x # xs) =
     (case f x of
        Inl e \<Rightarrow> Inl e
      | Inr y \<Rightarrow> (case map_throwing f xs of Inl e \<Rightarrow> Inl e | Inr ys \<Rightarrow> Inr (y # ys)))"

section \<open>shallowEqual\<close>

text \<open>
  \<^verbatim>\<open>
  export function shallowEqual(a, b) {
      if (strictEqual(a, b)) { return true; }
      const keysA = keys(a);
      const pairs = zip(keysA.map(prop(__, a)), keysA.map(prop(__, b)));
      return keysA.length === keys(b).length && all(apply(strictEqual), pairs);
  }
  \<close>
\<close>

definition shallowEqual :: "bool \<Rightarrow> inherited \<Rightarrow> heap \<Rightarrow> jsval \<Rightarrow> jsval \<Rightarrow> error + bool" where
  "shallowEqual safe inh h a b =
     (if strictEqual a b then Inr True
      else
        let keysA = R_keys h a in
        (case map_throwing (\<lambda>k. R_prop safe inh h k a) keysA of
           Inl e \<Rightarrow> Inl e
         | Inr as \<Rightarrow>
             (case map_throwing (\<lambda>k. R_prop safe inh h k b) keysA of
                Inl e \<Rightarrow> Inl e
              | Inr bs \<Rightarrow>
                  let pairs = zip as bs in
                  Inr (length keysA = length (R_keys h b)
                       \<and> list_all (\<lambda>(x, y). strictEqual x y) pairs))))"

section \<open>makeAttrSetterPath\<close>

text \<open>
  A path part is a number, a string, or an array of parts (as in \<^verbatim>\<open>['transforms', [3], 'type']\<close>).
  Numbers print as decimal numerals, an array prints as its elements joined by commas
  (\<^verbatim>\<open>Array.prototype.toString\<close>), and the first element of an empty array is \<^verbatim>\<open>undefined\<close>.
\<close>

datatype part = PNum int | PStr string | PArr "part list"

fun join_with :: "string \<Rightarrow> string list \<Rightarrow> string" where
  "join_with sep [] = []"
| "join_with sep [x] = x"
| "join_with sep (x # y # ys) = x @ sep @ join_with sep (y # ys)"

fun part_to_string :: "part \<Rightarrow> string" where
  "part_to_string (PNum n) = string_of_int n"
| "part_to_string (PStr s) = s"
| "part_to_string (PArr ps) = join_with '','' (map part_to_string ps)"

text \<open>\<^verbatim>\<open>'' + p[0]\<close> for an array \<open>p\<close>.\<close>

fun first_to_string :: "part list \<Rightarrow> string" where
  "first_to_string [] = ''undefined''"
| "first_to_string (p # ps) = part_to_string p"

text \<open>\<^verbatim>\<open>parts[i] === s\<close> for a string literal \<open>s\<close>; an index out of range reads \<^verbatim>\<open>undefined\<close>.\<close>

definition part_is :: "part list \<Rightarrow> nat \<Rightarrow> string \<Rightarrow> bool" where
  "part_is parts i s = (i < length parts \<and> parts ! i = PStr s)"

text \<open>
  \<^verbatim>\<open>
  for (let i = i0; i < parts.length; i++) {
      if (typeof parts[i] === 'number' || Array.isArray(parts[i])) {
          path += '[' + (Array.isArray(parts[i]) ? parts[i][0] : parts[i]) + ']';
      } else {
          path += (i > i0 ? '.' : '') + parts[i];
      }
  }
  \<close>
\<close>

function attr_loop :: "part list \<Rightarrow> nat \<Rightarrow> nat \<Rightarrow> string \<Rightarrow> string" where
  "attr_loop parts i0 i path =
     (if i < length parts then
        attr_loop parts i0 (Suc i)
          (case parts ! i of
             PNum n \<Rightarrow> path @ ''['' @ string_of_int n @ '']''
           | PArr ps \<Rightarrow> path @ ''['' @ first_to_string ps @ '']''
           | PStr s \<Rightarrow> path @ (if i0 < i then ''.'' else []) @ s)
      else path)"
  by pat_completeness auto
termination
  by (relation "measure (\<lambda>(parts, i0, i, path). length parts - i)") auto

declare attr_loop.simps [simp del]

text \<open>
  \<^verbatim>\<open>
  let i0 = 0;
  if (parts[i0] === '_fullData') {i0 += 2;}
  if (parts[i0] === '_fullInput') {i0++;}
  if (parts[i0] === '_fullLayout') {i0++;}
  \<close>
\<close>

definition makeAttrSetterPath :: "part list \<Rightarrow> string" where
  "makeAttrSetterPath parts =
     (let i0 = 0;
          i1 = (if part_is parts i0 ''_fullData'' then i0 + 2 else i0);
          i2 = (if part_is parts i1 ''_fullInput'' then i1 + 1 else i1);
          i3 = (if part_is parts i2 ''_fullLayout'' then i2 + 1 else i2)
      in attr_loop parts i3 i3 [])"

subsection \<open>The two readings of its specification\<close>

text \<open>
  The sentence of the specification, word for word: strip two segments if the first is
  \<^verbatim>\<open>_fullData\<close>, \<^emph>\<open>else\<close> one if it is \<^verbatim>\<open>_fullInput\<close>; then one more if the next is
  \<^verbatim>\<open>_fullLayout\<close>; a number or a single-element list is written in brackets, every other
  segment after a dot (no dot before the first segment written).
\<close>

definition strip_as_stated :: "part list \<Rightarrow> part list" where
  "strip_as_stated parts =
     (let rest = (if part_is parts 0 ''_fullData'' then drop 2 parts
                  else if part_is parts 0 ''_fullInput'' then drop 1 parts
                  else parts)
      in if part_is rest 0 ''_fullLayout'' then drop 1 rest else rest)"

fun segment_as_stated :: "bool \<Rightarrow> part \<Rightarrow> string" where
  "segment_as_stated is_first (PNum n) = ''['' @ string_of_int n @ '']''"
| "segment_as_stated is_first (PArr [p]) = ''['' @ part_to_string p @ '']''"
| "segment_as_stated is_first p = (if is_first then [] else ''.'') @ part_to_string p"

fun segments_as_stated :: "bool \<Rightarrow> part list \<Rightarrow> string" where
  "segments_as_stated is_first [] = []"
| "segments_as_stated is_first (p # ps) = segment_as_stated is_first p @ segments_as_stated False ps"

definition path_as_stated :: "part list \<Rightarrow> string" where
  "path_as_stated parts = segments_as_stated True (strip_as_stated parts)"

text \<open>
  The reading the code implements: the three prefixes are tested one after the other,
  and a list of any length is written as its first element in brackets.
\<close>

definition strip_prefixes :: "part list \<Rightarrow> part list" where
  "strip_prefixes parts =
     (let r1 = (if part_is parts 0 ''_fullData'' then drop 2 parts else parts);
          r2 = (if part_is r1 0 ''_fullInput'' then drop 1 r1 else r1)
      in if part_is r2 0 ''_fullLayout'' then drop 1 r2 else r2)"

fun segment :: "bool \<Rightarrow> part \<Rightarrow> string" where
  "segment is_first (PNum n) = ''['' @ string_of_int n @ '']''"
| "segment is_first (PArr ps) = ''['' @ first_to_string ps @ '']''"
| "segment is_first (PStr s) = (if is_first then [] else ''.'') @ s"

fun segments :: "bool \<Rightarrow> part list \<Rightarrow> string" where
  "segments is_first [] = []"
| "segments is_first (p # ps) = segment is_first p @ segments False ps"

definition path_as_amended :: "part list \<Rightarrow> string" where
  "path_as_amended parts = segments True (strip_prefixes parts)"

section \<open>Writing objects\<close>

text \<open>
  A new key of a plain object goes where \<^verbatim>\<open>Object.keys\<close> will list it: an array index
  among the other indices in ascending order (they come first), any other key at the
  end. An existing key keeps its place.
\<close>

fun insert_index :: "nat \<Rightarrow> string \<Rightarrow> jsval \<Rightarrow> (string \<times> jsval) list \<Rightarrow> (string \<times> jsval) list" where
  "insert_index i k v [] = [(k, v)]"
| "insert_index i k v ((k', v') # ps) =
     (case array_index k' of
        None \<Rightarrow> (k, v) # (k', v') # ps
      | Some j \<Rightarrow> if j < i then (k', v') # insert_index i k v ps else (k, v) # (k', v') # ps)"

definition put_prop :: "(string \<times> jsval) list \<Rightarrow> string \<Rightarrow> jsval \<Rightarrow> (string \<times> jsval) list" where
  "put_prop ps k v =
     (if k \<in> fst ` set ps then map (\<lambda>(k', v'). if k' = k then (k', v) else (k', v')) ps
      else (case array_index k of None \<Rightarrow> ps @ [(k, v)] | Some i \<Rightarrow> insert_index i k v ps))"

text \<open>\<^verbatim>\<open>arr[i] = v\<close>: a write beyond the end leaves empty slots in between.\<close>

definition put_slot :: "jsval option list \<Rightarrow> nat \<Rightarrow> jsval \<Rightarrow> jsval option list" where
  "put_slot es i v =
     (if i < length es then es[i := Some v]
      else es @ replicate (i - length es) None @ [Some v])"

text \<open>
  \<^verbatim>\<open>obj[k] = v\<close>. A write to the key \<^verbatim>\<open>__proto__\<close> of an object without an own property of
  that name goes to the accessor of \<^verbatim>\<open>Object.prototype\<close>: it sets the prototype (or does
  nothing, when \<open>v\<close> is not an object or \<^verbatim>\<open>null\<close>) and creates no own property, so the own
  properties are what they were. Arrays hold indexed slots only in this model, so a write
  of another key to an array is \<^verbatim>\<open>Unsupported\<close>.
\<close>

fun put_own :: "jsobj \<Rightarrow> string \<Rightarrow> jsval \<Rightarrow> error + jsobj" where
  "put_own (Plain ps) k v =
     (if k = ''__proto__'' \<and> k \<notin> fst ` set ps then Inr (Plain ps)
      else Inr (Plain (put_prop ps k v)))"
| "put_own (Arr es) k v =
     (if k = ''__proto__'' then Inr (Arr es)
      else (case array_index k of
              None \<Rightarrow> Inl Unsupported
            | Some i \<Rightarrow> Inr (Arr (put_slot es i v))))"
| "put_own (Other ps) k v =
     (if k = ''__proto__'' \<and> k \<notin> fst ` set ps then Inr (Other ps)
      else Inr (Other (put_prop ps k v)))"

text \<open>
  \<^verbatim>\<open>target[k] = v\<close> on a value, in strict mode (the file is a module): a write to
  \<^verbatim>\<open>undefined\<close>, \<^verbatim>\<open>null\<close> or another primitive raises a \<^verbatim>\<open>TypeError\<close>.
\<close>

definition js_put :: "heap \<Rightarrow> jsval \<Rightarrow> string \<Rightarrow> jsval \<Rightarrow> error + heap" where
  "js_put h target k v =
     (case target of
        VRef a \<Rightarrow>
          (case lookup h a of
             None \<Rightarrow> Inl Unsupported
           | Some obj \<Rightarrow> (case put_own obj k v of Inl e \<Rightarrow> Inl e | Inr obj' \<Rightarrow> Inr (h[a := obj'])))
      | _ \<Rightarrow> Inl TypeError)"

text \<open>\<^verbatim>\<open>arr.length = n\<close> on an array: a shorter array is padded with empty slots, a longer one cut.\<close>

definition resize :: "jsval option list \<Rightarrow> nat \<Rightarrow> jsval option list" where
  "resize es n = take n es @ replicate (n - length es) None"

text \<open>
  \<^verbatim>\<open>target.length = n\<close> on a value: on an array it resizes, on another object it is an
  ordinary property, on a primitive it raises.
\<close>

definition set_length :: "heap \<Rightarrow> jsval \<Rightarrow> nat \<Rightarrow> error + heap" where
  "set_length h target n =
     (case target of
        VRef a \<Rightarrow>
          (case lookup h a of
             None \<Rightarrow> Inl Unsupported
           | Some (Arr es) \<Rightarrow> Inr (h[a := Arr (resize es n)])
           | Some (Plain ps) \<Rightarrow> Inr (h[a := Plain (put_prop ps ''length'' (VNum (int n)))])
           | Some (Other ps) \<Rightarrow> Inr (h[a := Other (put_prop ps ''length'' (VNum (int n)))]))
      | _ \<Rightarrow> Inl TypeError)"

section \<open>align\<close>

text \<open>
  \<^verbatim>\<open>
  export function align(data) {
      const maxLength = reduce(max, 0, data.map(array => array.length));
      for (let i = 0; i < data.length; i++) {
          data[i].length = maxLength;
      }
      return data;
  }
  \<close>
  \<^verbatim>\<open>max\<close> and \<^verbatim>\<open>reduce\<close> are ramda's: \<^verbatim>\<open>max(a, b)\<close> is \<^verbatim>\<open>b > a ? b : a\<close>, and \<^verbatim>\<open>reduce\<close> folds from
  the left. \<^verbatim>\<open>data.map\<close> calls its callback on the slots that are not empty. The length of
  an element is modelled for arrays; \<^verbatim>\<open>undefined\<close> and \<^verbatim>\<open>null\<close> raise, and the length of
  any other element is \<^verbatim>\<open>Unsupported\<close>, as is \<^verbatim>\<open>data.map\<close> on an object that is not an array.
\<close>

definition R_max :: "nat \<Rightarrow> nat \<Rightarrow> nat" where
  "R_max a b = (if a < b then b else a)"

definition R_reduce :: "('b \<Rightarrow> 'a \<Rightarrow> 'b) \<Rightarrow> 'b \<Rightarrow> 'a list \<Rightarrow> 'b" where
  "R_reduce f acc xs = foldl f acc xs"

definition present :: "jsval option list \<Rightarrow> jsval list" where
  "present es = List.map_filter (\<lambda>e. e) es"

definition elem_length :: "heap \<Rightarrow> jsval \<Rightarrow> error + nat" where
  "elem_length h v =
     (case v of
        VRef a \<Rightarrow> (case lookup h a of Some (Arr es) \<Rightarrow> Inr (length es) | _ \<Rightarrow> Inl Unsupported)
      | VUndefined \<Rightarrow> Inl TypeError
      | VNull \<Rightarrow> Inl TypeError
      | _ \<Rightarrow> Inl Unsupported)"

text \<open>\<^verbatim>\<open>data.length\<close>, read again at every turn of the loop.\<close>

definition array_length :: "heap \<Rightarrow> addr \<Rightarrow> nat" where
  "array_length h d = (case lookup h d of Some (Arr es) \<Rightarrow> length es | _ \<Rightarrow> 0)"

definition array_slot :: "heap \<Rightarrow> addr \<Rightarrow> nat \<Rightarrow> jsval" where
  "array_slot h d i = (case lookup h d of Some (Arr es) \<Rightarrow> get_slot es i | _ \<Rightarrow> VUndefined)"

function align_loop :: "heap \<Rightarrow> addr \<Rightarrow> nat \<Rightarrow> nat \<Rightarrow> (unit, heap) outcome" where
  "align_loop h d maxLength i =
     (if i < array_length h d then
        (case set_length h (array_slot h d i) maxLength of
           Inl e \<Rightarrow> Thrown e h
         | Inr h' \<Rightarrow> align_loop h' d maxLength (Suc i))
      else Returned () h)"
  by pat_completeness auto

lemma array_length_set_length:
  "set_length h v n = Inr h' \<Longrightarrow> array_length h' d \<le> max n (array_length h d)"
  by (auto simp: set_length_def array_length_def lookup_def resize_def nth_list_update
           split: jsval.splits option.splits jsobj.splits if_splits)

termination align_loop
proof (relation "measure (\<lambda>(h, d, m, i). max m (array_length h d) - i)")
  show "wf (measure (\<lambda>(h, d, m, i). max m (array_length h d) - i))" by simp
next
  fix h d maxLength i h'
  assume "i < array_length h d" "set_length h (array_slot h d i) maxLength = Inr h'"
  then show "((h', d, maxLength, Suc i), (h, d, maxLength, i))
             \<in> measure (\<lambda>(h, d, m, i). max m (array_length h d) - i)"
    using array_length_set_length [of h "array_slot h d i" maxLength h' d] by auto
qed

declare align_loop.simps [simp del]

definition align :: "heap \<Rightarrow> jsval \<Rightarrow> (jsval, heap) outcome" where
  "align h data =
     (case data of
        VRef d \<Rightarrow>
          (case lookup h d of
             Some (Arr es) \<Rightarrow>
               (case map_throwing (elem_length h) (present es) of
                  Inl e \<Rightarrow> Thrown e h
                | Inr lengths \<Rightarrow>
                    let maxLength = R_reduce R_max 0 lengths in
                    (case align_loop h d maxLength 0 of
                       Returned u h' \<Rightarrow> Returned data h'
                     | Thrown e h' \<Rightarrow> Thrown e h'
                     | Diverged \<Rightarrow> Diverged))
           | _ \<Rightarrow> Thrown Unsupported h)
      | _ \<Rightarrow> Thrown TypeError h)"

section \<open>Notions used to state the claims\<close>

text \<open>The store after the arrays at the addresses \<open>A\<close> were resized to \<open>n\<close>.\<close>

definition resize_at :: "addr set \<Rightarrow> nat \<Rightarrow> heap \<Rightarrow> heap" where
  "resize_at A n h =
     map (\<lambda>a. if a \<in> A then (case h ! a of Arr xs \<Rightarrow> Arr (resize xs n) | obj \<Rightarrow> obj) else h ! a)
       [0..<length h]"

section \<open>Paths and the policy for arrays\<close>

text \<open>
  \<^verbatim>\<open>
  function doArrayWalk(key, value, walkArrays, walkArraysMatchingKeys) {
      if (!Array.isArray(value)) { return false; }
      if (walkArrays ||
          (walkArraysMatchingKeys && walkArraysMatchingKeys.includes(key))) { return true; }
      return false;
  }
  \<close>
  The configuration is the record of its three optional fields: \<open>walkArrays\<close> is a boolean
  (absent reads as false), \<open>walkArraysMatchingKeys\<close> is an array of keys or absent, and
  \<open>pathType\<close> is any value (absent is \<^verbatim>\<open>undefined\<close>).
\<close>

record config =
  walkArrays :: bool
  walkArraysMatchingKeys :: "string list option"
  pathType :: jsval

definition default_config :: config where
  "default_config = \<lparr>walkArrays = False, walkArraysMatchingKeys = None, pathType = VUndefined\<rparr>"

definition doArrayWalk :: "heap \<Rightarrow> string \<Rightarrow> jsval \<Rightarrow> bool \<Rightarrow> string list option \<Rightarrow> bool" where
  "doArrayWalk h key v wa wamk =
     (if \<not> isArray h v then False
      else if wa \<or> (case wamk of None \<Rightarrow> False | Some ks \<Rightarrow> key \<in> set ks) then True
      else False)"

text \<open>
  The accumulated path is an array of keys or a string. \<^verbatim>\<open>getPath(pathType, _path)\<close> builds
  the accumulator: the default of \<open>pathType\<close> is \<^verbatim>\<open>'array'\<close>, and a falsy \<open>_path\<close> (absent, or the
  empty string) is replaced by the empty path of the mode.
\<close>

datatype path = PathArr "string list" | PathStr string

record pathacc =
  acc_type :: jsval
  acc_path :: path

fun path_to_string :: "path \<Rightarrow> string" where
  "path_to_string (PathArr ks) = join_with '','' ks"
| "path_to_string (PathStr s) = s"

fun path_length :: "path \<Rightarrow> nat" where
  "path_length (PathArr ks) = length ks"
| "path_length (PathStr s) = length s"

fun path_truthy :: "path \<Rightarrow> bool" where
  "path_truthy (PathArr ks) = True"
| "path_truthy (PathStr s) = (s \<noteq> [])"

definition getPath :: "jsval \<Rightarrow> path option \<Rightarrow> pathacc" where
  "getPath pt p =
     (let pt' = (if pt = VUndefined then VStr ''array'' else pt);
          empty_path = (if strictEqual pt' (VStr ''array'') then PathArr [] else PathStr [])
      in \<lparr>acc_type = pt',
          acc_path = (case p of
                        None \<Rightarrow> empty_path
                      | Some q \<Rightarrow> if path_truthy q then q else empty_path)\<rparr>)"

text \<open>
  \<^verbatim>\<open>
  set(parent, key) {
      let nextPath;
      switch (pathType) {
          case 'array': nextPath = this._path.concat([key]); break;
          case 'nestedProperty':
              if (this._path.length === 0) { nextPath = key; }
              else if (Array.isArray(parent)) { nextPath = this._path + `[${key}]`; }
              else { nextPath = this._path + '.' + key; }
              break;
          default: throw new Error('unrecognized pathType ' + pathType);
      }
      return getPath(pathType, nextPath);
  }
  \<close>
  \<^verbatim>\<open>concat\<close> on an array appends the key, on a string it appends the key's text.
\<close>

definition path_set :: "heap \<Rightarrow> pathacc \<Rightarrow> jsval \<Rightarrow> string \<Rightarrow> error + pathacc" where
  "path_set h acc parent key =
     (if strictEqual (acc_type acc) (VStr ''array'') then
        Inr (getPath (acc_type acc)
               (Some (case acc_path acc of
                        PathArr ks \<Rightarrow> PathArr (ks @ [key])
                      | PathStr s \<Rightarrow> PathStr (s @ key))))
      else if strictEqual (acc_type acc) (VStr ''nestedProperty'') then
        Inr (getPath (acc_type acc)
               (Some (if path_length (acc_path acc) = 0 then PathStr key
                      else if isArray h parent
                        then PathStr (path_to_string (acc_path acc) @ ''['' @ key @ '']'')
                        else PathStr (path_to_string (acc_path acc) @ ''.'' @ key))))
      else Inl (UnrecognizedPathType (acc_type acc)))"

text \<open>
  \<^verbatim>\<open>
  get(parent, key) {
      if (pathType === 'array') { return this._path; }
      return this.set(parent, key)._path;
  }
  \<close>
\<close>

definition path_get :: "heap \<Rightarrow> pathacc \<Rightarrow> jsval \<Rightarrow> string \<Rightarrow> error + path" where
  "path_get h acc parent key =
     (if strictEqual (acc_type acc) (VStr ''array'') then Inr (acc_path acc)
      else (case path_set h acc parent key of
              Inl e \<Rightarrow> Inl e
            | Inr acc' \<Rightarrow> Inr (acc_path acc')))"

section \<open>walkObject\<close>

text \<open>
  A visitor is called with the key, the parent and the path. It runs on a state, the
  store together with whatever it keeps for itself, and returns a value or raises.

  \<^verbatim>\<open>
  function _walkObject(object, callback, path, config) {
      const {walkArrays, walkArraysMatchingKeys} = config;
      Object.keys(object).forEach(key => {
          if (callback(key, object, path.get(object, key))) { return; }
          const value = object[key];
          if (isPlainObject(value) ||
              doArrayWalk(key, value, walkArrays, walkArraysMatchingKeys)) {
              _walkObject(value, callback, path.set(object, key), config);
          }
      });
  }
  \<close>
  \<open>walk_keys\<close> is the \<^verbatim>\<open>forEach\<close> over the keys that are left. The first argument bounds the
  depth of the nested calls: the store may hold a cycle, or the visitor may keep adding
  objects, and then the recursion of the source never ends; a walk that needs more
  depth than it was given is \<open>Diverged\<close>.
\<close>

type_synonym 'u visitor =
  "string \<Rightarrow> jsval \<Rightarrow> path \<Rightarrow> heap \<times> 'u \<Rightarrow> (jsval, heap \<times> 'u) outcome"

fun walk_keys ::
  "nat \<Rightarrow> jsval \<Rightarrow> 'u visitor \<Rightarrow> pathacc \<Rightarrow> config \<Rightarrow> string list \<Rightarrow> heap \<times> 'u
   \<Rightarrow> (unit, heap \<times> 'u) outcome" where
  "walk_keys n object callback path cfg [] st = Returned () st"
| "walk_keys n object callback path cfg (key # keys) st =
     (case path_get (fst st) path object key of
        Inl e \<Rightarrow> Thrown e st
      | Inr p \<Rightarrow>
          (case callback key object p st of
             Thrown e st1 \<Rightarrow> Thrown e st1
           | Diverged \<Rightarrow> Diverged
           | Returned r st1 \<Rightarrow>
               if truthy r then walk_keys n object callback path cfg keys st1
               else
                 let v = js_get (fst st1) object key in
                 if isPlainObject (fst st1) v
                    \<or> doArrayWalk (fst st1) key v (walkArrays cfg) (walkArraysMatchingKeys cfg)
                 then
                   (case path_set (fst st1) path object key of
                      Inl e \<Rightarrow> Thrown e st1
                    | Inr path' \<Rightarrow>
                        (case n of
                           0 \<Rightarrow> Diverged
                         | Suc m \<Rightarrow>
                             (case walk_keys m v callback path' cfg (R_keys (fst st1) v) st1 of
                                Returned u st2 \<Rightarrow> walk_keys n object callback path cfg keys st2
                              | Thrown e st2 \<Rightarrow> Thrown e st2
                              | Diverged \<Rightarrow> Diverged)))
                 else walk_keys n object callback path cfg keys st1))"

definition walkObject_rec ::
  "nat \<Rightarrow> jsval \<Rightarrow> 'u visitor \<Rightarrow> pathacc \<Rightarrow> config \<Rightarrow> heap \<times> 'u \<Rightarrow> (unit, heap \<times> 'u) outcome" where
  "walkObject_rec n object callback path cfg st =
     walk_keys n object callback path cfg (R_keys (fst st) object) st"

text \<open>
  \<^verbatim>\<open>
  export function walkObject(input, callback, config = {}) {
      if (!isPlainObject(input) && !Array.isArray(input)) {
          throw new Error('The input must be an object.');
      }
      var path = getPath(config.pathType);
      _walkObject(input, callback, path, config);
  }
  \<close>
\<close>

definition walkObject ::
  "nat \<Rightarrow> jsval \<Rightarrow> 'u visitor \<Rightarrow> config \<Rightarrow> heap \<times> 'u \<Rightarrow> (unit, heap \<times> 'u) outcome" where
  "walkObject n input callback cfg st =
     (if \<not> isPlainObject (fst st) input \<and> \<not> isArray (fst st) input then Thrown InvalidInput st
      else
        let path = getPath (pathType cfg) None in
        walkObject_rec n input callback path cfg st)"

text \<open>
  A visitor that only records its calls (key and path, in order) and vetoes the keys of
  a given set: the observer used to state which keys a walk visits.
\<close>

definition recording :: "(string \<Rightarrow> bool) \<Rightarrow> (string \<times> path) list visitor" where
  "recording veto key parent p st = Returned (VBool (veto key)) (fst st, snd st @ [(key, p)])"

subsection \<open>The calls of a traversal\<close>


text \<open>
  \<open>logging visitor\<close> is \<open>visitor\<close> with a log: it runs \<open>visitor\<close> on the store and on the
  visitor's own state and appends the call to the log, as the key, the path the walker
  passed and the value returned (none when the visitor raised). The log of a walk with
  \<open>logging visitor\<close> is the list of the calls the walk made.
\<close>

type_synonym call = "string \<times> path \<times> jsval option"







text \<open>
  The calls made by the walk of the keys \<open>ks\<close> of the object at the path \<open>p\<close>: each is for
  one of these keys, or below one of them.
\<close>

definition scoped :: "string list \<Rightarrow> string list \<Rightarrow> call list \<Rightarrow> bool" where
  "scoped p ks calls =
     (\<forall>c\<in>set calls. \<exists>q. fst (snd c) = PathArr q
        \<and> ((q = p \<and> fst c \<in> set ks) \<or> (\<exists>k\<in>set ks. take (Suc (length p)) q = p @ [k])))"


section \<open>copyObject\<close>

text \<open>
  The callback given to \<^verbatim>\<open>copyObject\<close> is modelled as an observer: it reads the store, keeps
  a state of its own and returns a value; it does not write to the store and does not
  raise.

  \<^verbatim>\<open>inputObjects\<close> and \<^verbatim>\<open>outputObjects\<close> are the two local arrays, related by index;
  \<^verbatim>\<open>indexOf\<close> finds the first element strictly equal to its argument, and an index that is
  not there reads \<^verbatim>\<open>undefined\<close>.
\<close>

type_synonym 'u shouldCopy = "string \<Rightarrow> jsval \<Rightarrow> path \<Rightarrow> heap \<Rightarrow> 'u \<Rightarrow> jsval \<times> 'u"

record 'u copy_state =
  inputObjects :: "jsval list"
  outputObjects :: "jsval list"
  user :: 'u

fun index_of :: "jsval list \<Rightarrow> jsval \<Rightarrow> nat option" where
  "index_of [] v = None"
| "index_of (x # xs) v =
     (if strictEqual x v then Some 0
      else (case index_of xs v of None \<Rightarrow> None | Some i \<Rightarrow> Some (Suc i)))"

definition element_at :: "jsval list \<Rightarrow> nat option \<Rightarrow> jsval" where
  "element_at xs i = (case i of None \<Rightarrow> VUndefined | Some j \<Rightarrow> if j < length xs then xs ! j else VUndefined)"

text \<open>
  \<^verbatim>\<open>
  function walkCallback(key, inputParent, path) {
      if (callback(key, inputParent, path) === false) { return true; }
      const outputParent = outputObjects[inputObjects.indexOf(inputParent)];
      const inputValue = inputParent[key];
      const isObject = isPlainObject(inputValue);
      const isArray = isObject ? false : Array.isArray(inputValue);
      if (isObject || isArray) {
          const outputValue = isArray ? [] : {};
          inputObjects.push(inputValue);
          outputObjects.push(outputValue);
          outputParent[key] = outputValue;
      } else {
          outputParent[key] = inputValue;
      }
      return false;
  }
  \<close>
\<close>

definition walkCallback :: "'u shouldCopy \<Rightarrow> 'u copy_state visitor" where
  "walkCallback callback key inputParent p st =
     (let h = fst st;
          cs = snd st;
          (r, u') = callback key inputParent p h (user cs);
          cs1 = cs\<lparr>user := u'\<rparr>
      in if strictEqual r (VBool False) then Returned (VBool True) (h, cs1)
         else
           let outputParent = element_at (outputObjects cs1) (index_of (inputObjects cs1) inputParent);
               inputValue = js_get h inputParent key;
               isObject = isPlainObject h inputValue;
               isArr = (if isObject then False else isArray h inputValue)
           in if isObject \<or> isArr then
                let (a, h1) = alloc h (if isArr then Arr [] else Plain []);
                    outputValue = VRef a;
                    cs2 = cs1\<lparr>inputObjects := inputObjects cs1 @ [inputValue],
                              outputObjects := outputObjects cs1 @ [outputValue]\<rparr>
                in (case js_put h1 outputParent key outputValue of
                      Inl e \<Rightarrow> Thrown e (h1, cs2)
                    | Inr h2 \<Rightarrow> Returned (VBool False) (h2, cs2))
              else
                (case js_put h outputParent key inputValue of
                   Inl e \<Rightarrow> Thrown e (h, cs1)
                 | Inr h2 \<Rightarrow> Returned (VBool False) (h2, cs1)))"

text \<open>
  \<^verbatim>\<open>
  export function copyObject(input, callback) {
      const output = Array.isArray(input) ? [] : {};
      const inputObjects = [input];
      const outputObjects = [output];
      ...
      walkObject(input, walkCallback, {walkArrays: true});
      return output;
  }
  \<close>
\<close>

definition copyObject ::
  "nat \<Rightarrow> heap \<Rightarrow> jsval \<Rightarrow> 'u shouldCopy \<Rightarrow> 'u \<Rightarrow> (jsval, heap \<times> 'u) outcome" where
  "copyObject n h input callback u =
     (let (a, h1) = alloc h (if isArray h input then Arr [] else Plain []);
          output = VRef a;
          cs = \<lparr>inputObjects = [input], outputObjects = [output], user = u\<rparr>
      in (case walkObject n input (walkCallback callback) (default_config\<lparr>walkArrays := True\<rparr>) (h1, cs) of
            Returned r st \<Rightarrow> Returned output (fst st, user (snd st))
          | Thrown e st \<Rightarrow> Thrown e (fst st, user (snd st))
          | Diverged \<Rightarrow> Diverged))"

text \<open>Two callbacks of the specification's examples: \<^verbatim>\<open>() => true\<close> and \<^verbatim>\<open>key => key !== k\<close>.\<close>

definition always_true :: "unit shouldCopy" where
  "always_true key parent p h u = (VBool True, u)"

definition key_is_not :: "string \<Rightarrow> unit shouldCopy" where
  "key_is_not k key parent p h u = (VBool (key \<noteq> k), u)"

text \<open>A value of a store refers to an object of that store.\<close>

definition valid_value :: "heap \<Rightarrow> jsval \<Rightarrow> bool" where
  "valid_value h v = (case v of VRef a \<Rightarrow> a < length h | _ \<Rightarrow> True)"

subsection \<open>Trees of containers, deep equality and reachability\<close>

text \<open>
  A container is a plain object or an array. \<open>tree_at h v A d\<close> says that the containers
  reachable from the value \<open>v\<close> in the store \<open>h\<close> form a tree: no container is reached along
  two different key paths (so there is no sharing and no cycle). \<open>A\<close> is the set of their
  addresses and \<open>d\<close> bounds their nesting depth. The store is well formed below \<open>v\<close>: every
  reference is to an object of the store and no key is listed twice. Two more conditions
  are on the input: no array ends in an empty slot, and no container has an own key
  \<^verbatim>\<open>__proto__\<close> (as an object made by \<^verbatim>\<open>JSON.parse\<close> can have).
\<close>

fun is_container :: "jsobj \<Rightarrow> bool" where
  "is_container (Plain ps) = True"
| "is_container (Arr es) = True"
| "is_container (Other ps) = False"

fun no_trailing_hole :: "jsobj \<Rightarrow> bool" where
  "no_trailing_hole (Arr es) = (es = [] \<or> last es \<noteq> None)"
| "no_trailing_hole obj = True"

inductive tree_at :: "heap \<Rightarrow> jsval \<Rightarrow> addr set \<Rightarrow> nat \<Rightarrow> bool" for h :: heap where
  leaf: "\<not> isPlainObject h v \<Longrightarrow> \<not> isArray h v \<Longrightarrow> valid_value h v \<Longrightarrow> tree_at h v {} d"
| node: "lookup h a = Some obj \<Longrightarrow> is_container obj \<Longrightarrow> distinct (own_keys obj) \<Longrightarrow>
         no_trailing_hole obj \<Longrightarrow>
         (\<forall>k\<in>set (own_keys obj). tree_at h (get_own obj k) (F k) d) \<Longrightarrow>
         (\<forall>k\<in>set (own_keys obj). a \<notin> F k) \<Longrightarrow>
         (\<forall>k\<in>set (own_keys obj). \<forall>k'\<in>set (own_keys obj). k \<noteq> k' \<longrightarrow> F k \<inter> F k' = {}) \<Longrightarrow>
         ''__proto__'' \<notin> set (own_keys obj) \<Longrightarrow>
         tree_at h (VRef a) (insert a (\<Union>k\<in>set (own_keys obj). F k)) (Suc d)"

text \<open>
  Two objects have the same shape when both are plain objects, or both are arrays of the
  same length. \<open>deep_equal h h' v v'\<close>: the value \<open>v\<close> in the store \<open>h\<close> and the value \<open>v'\<close> in the
  store \<open>h'\<close> are equal in value. A value that is not a container is equal to itself only
  (a primitive, or the same reference to an object of another kind); containers are
  equal when they have the same shape, the same own keys, and equal values at every key.
\<close>

fun same_shape :: "jsobj \<Rightarrow> jsobj \<Rightarrow> bool" where
  "same_shape (Plain ps) (Plain ps') = True"
| "same_shape (Arr es) (Arr es') = (length es = length es')"
| "same_shape obj obj' = False"

inductive deep_equal :: "heap \<Rightarrow> heap \<Rightarrow> jsval \<Rightarrow> jsval \<Rightarrow> bool" for h :: heap and h' :: heap where
  same_leaf: "\<not> isPlainObject h v \<Longrightarrow> \<not> isArray h v \<Longrightarrow> deep_equal h h' v v"
| same_container:
    "lookup h a = Some obj \<Longrightarrow> lookup h' a' = Some obj' \<Longrightarrow> same_shape obj obj' \<Longrightarrow>
     set (own_keys obj') = set (own_keys obj) \<Longrightarrow>
     (\<forall>k\<in>set (own_keys obj). deep_equal h h' (get_own obj k) (get_own obj' k)) \<Longrightarrow>
     deep_equal h h' (VRef a) (VRef a')"

text \<open>\<open>reaches h v b\<close>: the container at address \<open>b\<close> is \<open>v\<close> itself or is reachable inside \<open>v\<close>.\<close>

inductive reaches :: "heap \<Rightarrow> jsval \<Rightarrow> addr \<Rightarrow> bool" for h :: heap where
  here: "lookup h a = Some obj \<Longrightarrow> is_container obj \<Longrightarrow> reaches h (VRef a) a"
| inside: "lookup h a = Some obj \<Longrightarrow> is_container obj \<Longrightarrow> k \<in> set (own_keys obj) \<Longrightarrow>
           reaches h (get_own obj k) b \<Longrightarrow> reaches h (VRef a) b"

text \<open>
  \<open>pruned_copy h h' keep p v v'\<close>: the value \<open>v'\<close> of the store \<open>h'\<close> is the value \<open>v\<close> of the store
  \<open>h\<close>, found at the key path \<open>p\<close>, with exactly the keys left out that \<open>keep\<close> rejects (asked
  with the key, the parent and the path of the parent, as the callback of \<^verbatim>\<open>copyObject\<close>
  is). An array that lost keys may be shorter than the original; a container that lost
  none has the original's shape.
\<close>

fun shape_le :: "jsobj \<Rightarrow> jsobj \<Rightarrow> bool" where
  "shape_le (Plain ps') (Plain ps) = True"
| "shape_le (Arr es') (Arr es) = (length es' \<le> length es)"
| "shape_le obj' obj = False"

inductive pruned_copy ::
  "heap \<Rightarrow> heap \<Rightarrow> (string \<Rightarrow> jsval \<Rightarrow> path \<Rightarrow> bool) \<Rightarrow> string list \<Rightarrow> jsval \<Rightarrow> jsval \<Rightarrow> bool"
  for h :: heap and h' :: heap and keep :: "string \<Rightarrow> jsval \<Rightarrow> path \<Rightarrow> bool" where
  kept_leaf: "\<not> isPlainObject h v \<Longrightarrow> \<not> isArray h v \<Longrightarrow> pruned_copy h h' keep p v v"
| kept_container:
    "lookup h a = Some obj \<Longrightarrow> lookup h' a' = Some obj' \<Longrightarrow> shape_le obj' obj \<Longrightarrow>
     (set (own_keys obj') = set (own_keys obj) \<longrightarrow> same_shape obj obj') \<Longrightarrow>
     set (own_keys obj') = {k \<in> set (own_keys obj). keep k (VRef a) (PathArr p)} \<Longrightarrow>
     (\<forall>k\<in>set (own_keys obj'). pruned_copy h h' keep (p @ [k]) (get_own obj k) (get_own obj' k)) \<Longrightarrow>
     pruned_copy h h' keep p (VRef a) (VRef a')"

text \<open>
  The callback \<open>cb\<close> decides by \<open>keep\<close> when its answer is exactly \<^verbatim>\<open>false\<close> on the keys \<open>keep\<close>
  rejects and on no others, whatever the store and its own state are. A callback that
  never answers \<^verbatim>\<open>false\<close> decides by the predicate that keeps everything.
\<close>

definition decides :: "'u shouldCopy \<Rightarrow> (string \<Rightarrow> jsval \<Rightarrow> path \<Rightarrow> bool) \<Rightarrow> bool" where
  "decides cb keep =
     (\<forall>key parent p h u. (fst (cb key parent p h u) = VBool False) = (\<not> keep key parent p))"

text \<open>The empty container that \<^verbatim>\<open>copyObject\<close> allocates for a container.\<close>

fun empty_like :: "jsobj \<Rightarrow> jsobj" where
  "empty_like (Arr es) = Arr []"
| "empty_like obj = Plain []"

section \<open>Facts about property keys\<close>

lemma digit_val_char: "d < 10 \<Longrightarrow> digit_val (digit_char d) = Some d"
proof -
  assume "d < 10"
  then have "d \<in> {0, 1, 2, 3, 4, 5, 6, 7, 8, 9}" by auto
  then show ?thesis
    by (auto simp: digit_val_def digit_char_def)
qed

lemma digit_char_not_zero: "0 < d \<Longrightarrow> d < 10 \<Longrightarrow> digit_char d \<noteq> CHR ''0''"
proof -
  assume "0 < d" "d < 10"
  then have "d \<in> {1, 2, 3, 4, 5, 6, 7, 8, 9}" by auto
  then show ?thesis
    by (auto simp: digit_char_def)
qed

lemma digits_val_append:
  "digits_val acc (xs @ ys) =
     (case digits_val acc xs of None \<Rightarrow> None | Some a \<Rightarrow> digits_val a ys)"
  by (induction xs arbitrary: acc) (auto split: option.splits)

lemma digits_val_string_of_nat: "digits_val 0 (string_of_nat n) = Some n"
proof (induction n rule: string_of_nat.induct)
  case (1 n)
  show ?case
  proof (cases "n < 10")
    case True
    then show ?thesis by (simp add: string_of_nat.simps [of n] digit_val_char)
  next
    case False
    with 1 have "digits_val 0 (string_of_nat (n div 10)) = Some (n div 10)" by simp
    with False show ?thesis
      by (simp add: string_of_nat.simps [of n] digits_val_append digit_val_char)
  qed
qed

lemma string_of_nat_nonempty: "string_of_nat n \<noteq> []"
  by (subst string_of_nat.simps) simp

lemma hd_string_of_nat: "0 < n \<Longrightarrow> hd (string_of_nat n) \<noteq> CHR ''0''"
proof (induction n rule: string_of_nat.induct)
  case (1 n)
  show ?case
  proof (cases "n < 10")
    case True
    with 1(2) show ?thesis by (simp add: string_of_nat.simps [of n] digit_char_not_zero)
  next
    case False
    then have "0 < n div 10" by simp
    with 1 False have "hd (string_of_nat (n div 10)) \<noteq> CHR ''0''" by simp
    with False show ?thesis
      by (simp add: string_of_nat.simps [of n] string_of_nat_nonempty)
  qed
qed

lemma string_of_nat_0: "string_of_nat 0 = ''0''"
  by (simp add: string_of_nat.simps digit_char_def)

lemma array_index_string_of_nat: "array_index (string_of_nat n) = Some n"
proof (cases "n = 0")
  case True
  then show ?thesis by (simp add: string_of_nat_0 array_index_def digit_val_def)
next
  case False
  then show ?thesis
    using hd_string_of_nat [of n]
    by (simp add: array_index_def string_of_nat_nonempty digits_val_string_of_nat)
qed

lemma string_of_nat_inj: "string_of_nat m = string_of_nat n \<Longrightarrow> m = n"
  by (metis array_index_string_of_nat option.inject)

section \<open>shallowEqual: the claims\<close>

lemma map_throwing_Inr:
  "(\<And>x. x \<in> set xs \<Longrightarrow> f x = Inr (g x)) \<Longrightarrow> map_throwing f xs = Inr (map g xs)"
  by (induction xs) auto

lemma map_throwing_Inl:
  "xs \<noteq> [] \<Longrightarrow> (\<And>x. x \<in> set xs \<Longrightarrow> f x = Inl e) \<Longrightarrow> map_throwing f xs = Inl e"
  by (cases xs) auto

lemma list_all_zip_map:
  "list_all (\<lambda>(x, y). P x y) (zip (map f ks) (map g ks)) = (\<forall>k\<in>set ks. P (f k) (g k))"
  by (induction ks) auto

lemma R_keys_prim: "(\<And>a. v \<noteq> VRef a) \<Longrightarrow> R_keys h v = []"
  by (cases v) (auto simp: R_keys_def)

lemma has_own_keys: "k \<in> set (own_keys obj) \<Longrightarrow> has_own obj k"
  by (cases obj) (auto simp: array_index_string_of_nat)

lemma js_read_own: "k \<in> set (R_keys h a) \<Longrightarrow> js_read inh h a k = js_get h a k"
  by (cases a) (auto simp: R_keys_def js_read_def js_get_def has_own_keys split: option.splits)

lemma R_prop_keys: "k \<in> set (R_keys h a) \<Longrightarrow> R_prop safe inh h k a = Inr (js_read inh h a k)"
  by (cases a) (auto simp: R_keys_def R_prop_def)

lemma shallowEqual_returns:
  assumes "safe \<or> (b \<noteq> VUndefined \<and> b \<noteq> VNull)"
  shows "shallowEqual safe inh h a b =
         Inr (strictEqual a b \<or>
              (length (R_keys h a) = length (R_keys h b)
               \<and> (\<forall>k\<in>set (R_keys h a).
                    strictEqual (js_read inh h a k)
                      (if b = VUndefined \<or> b = VNull then VUndefined else js_read inh h b k))))"
proof -
  have a: "map_throwing (\<lambda>k. R_prop safe inh h k a) (R_keys h a)
           = Inr (map (js_read inh h a) (R_keys h a))"
    by (rule map_throwing_Inr) (simp add: R_prop_keys)
  have b: "map_throwing (\<lambda>k. R_prop safe inh h k b) (R_keys h a)
           = Inr (map (\<lambda>k. if b = VUndefined \<or> b = VNull then VUndefined else js_read inh h b k)
                    (R_keys h a))"
    using assms by (intro map_throwing_Inr) (auto simp: R_prop_def)
  show ?thesis
    by (simp add: shallowEqual_def Let_def a b list_all_zip_map)
qed

lemma shallowEqual_throws:
  assumes "\<not> safe" "b = VUndefined \<or> b = VNull" "\<not> strictEqual a b"
  shows "shallowEqual safe inh h a b = (if R_keys h a = [] then Inr True else Inl TypeError)"
proof (cases "R_keys h a = []")
  case True
  moreover have "R_keys h b = []" using assms(2) by (auto simp: R_keys_def)
  ultimately show ?thesis using assms(3) by (simp add: shallowEqual_def Let_def)
next
  case False
  have a: "map_throwing (\<lambda>k. R_prop safe inh h k a) (R_keys h a)
           = Inr (map (js_read inh h a) (R_keys h a))"
    by (rule map_throwing_Inr) (simp add: R_prop_keys)
  have b: "map_throwing (\<lambda>k. R_prop safe inh h k b) (R_keys h a) = Inl TypeError"
    using False assms(1,2) by (intro map_throwing_Inl) (auto simp: R_prop_def)
  show ?thesis using False assms(3) by (simp add: shallowEqual_def Let_def a b)
qed

lemma R_keys_nullish: "b = VUndefined \<or> b = VNull \<Longrightarrow> R_keys h b = []"
  by (auto simp: R_keys_def)

text \<open>
  C7. \<^verbatim>\<open>shallowEqual(a, b)\<close> is true at once when \<open>a\<close> and \<open>b\<close> are strictly equal, and
  \<^verbatim>\<open>shallowEqual(a, a)\<close> is true for every \<open>a\<close>; otherwise it returns true exactly when \<open>a\<close>
  and \<open>b\<close> have the same number of own keys and every own key \<open>k\<close> of \<open>a\<close> maps to strictly
  equal values in \<open>a\<close> and in \<open>b\<close>. The value of \<open>k\<close> in \<open>b\<close> is \<^verbatim>\<open>b[k]\<close>, as the code reads it: the
  own property of \<open>b\<close>, and what \<open>b\<close> inherits when it has no own property \<open>k\<close>. This holds
  for every store and every environment of inherited properties. The function returns a
  boolean whenever \<open>b\<close> is not \<^verbatim>\<open>undefined\<close> or \<^verbatim>\<open>null\<close> (and also then, with a ramda whose \<^verbatim>\<open>prop\<close>
  accepts them).
\<close>

theorem shallowEqual_characterisation:
  "(strictEqual a b \<longrightarrow> shallowEqual safe inh h a b = Inr True)
   \<and> shallowEqual safe inh h a a = Inr True
   \<and> (\<not> strictEqual a b \<longrightarrow>
        (shallowEqual safe inh h a b = Inr True) =
        (length (R_keys h a) = length (R_keys h b)
         \<and> (\<forall>k\<in>set (R_keys h a). strictEqual (js_read inh h a k) (js_read inh h b k))))
   \<and> (safe \<or> (b \<noteq> VUndefined \<and> b \<noteq> VNull) \<longrightarrow> (\<exists>r. shallowEqual safe inh h a b = Inr r))"
proof (intro conjI impI)
  show "shallowEqual safe inh h a b = Inr True" if "strictEqual a b"
    using that by (simp add: shallowEqual_def)
  show "shallowEqual safe inh h a a = Inr True"
  proof (cases "strictEqual a a")
    case True
    then show ?thesis by (simp add: shallowEqual_def)
  next
    case False
    then have "a = VNaN" by (simp add: strictEqual_def)
    then show ?thesis by (simp add: shallowEqual_def Let_def R_keys_def strictEqual_def)
  qed
  show "(shallowEqual safe inh h a b = Inr True) =
        (length (R_keys h a) = length (R_keys h b)
         \<and> (\<forall>k\<in>set (R_keys h a). strictEqual (js_read inh h a k) (js_read inh h b k)))"
    if ne: "\<not> strictEqual a b"
  proof (cases "b = VUndefined \<or> b = VNull")
    case False
    then show ?thesis using ne by (simp add: shallowEqual_returns)
  next
    case nullish: True
    then have kb: "R_keys h b = []" by (rule R_keys_nullish)
    show ?thesis
    proof (cases safe)
      case True
      then show ?thesis using ne nullish kb by (auto simp: shallowEqual_returns)
    next
      case False
      then show ?thesis using shallowEqual_throws [OF False nullish ne, of inh h] kb by auto
    qed
  qed
  show "\<exists>r. shallowEqual safe inh h a b = Inr r" if "safe \<or> (b \<noteq> VUndefined \<and> b \<noteq> VNull)"
    using shallowEqual_returns [OF that] by blast
qed

theorem shallowEqual_characterisation_witness:
  "shallowEqual False no_inherited [Plain [(''x'', VNum 1)], Plain [(''x'', VNum 1)]] (VRef 0) (VRef 1)
     = Inr True
   \<and> shallowEqual False no_inherited [Plain [(''x'', VNum 1)], Plain [(''x'', VNum 2)]] (VRef 0) (VRef 1)
     \<noteq> Inr True
   \<and> shallowEqual False (\<lambda>v k. if k = ''toString'' then VRef 2 else VUndefined)
       [Plain [(''toString'', VRef 2)], Plain [(''a'', VNum 1)], Other []] (VRef 0) (VRef 1)
     = Inr True
   \<and> shallowEqual False (\<lambda>v k. if k = ''toString'' then VRef 2 else VUndefined)
       [Plain [(''toString'', VUndefined)], Plain [(''y'', VNum 2)], Other []] (VRef 0) (VRef 1)
     \<noteq> Inr True"
  using shallowEqual_characterisation
          [of "VRef 0" "VRef 1" False no_inherited "[Plain [(''x'', VNum 1)], Plain [(''x'', VNum 1)]]"]
        shallowEqual_characterisation
          [of "VRef 0" "VRef 1" False no_inherited "[Plain [(''x'', VNum 1)], Plain [(''x'', VNum 2)]]"]
        shallowEqual_characterisation
          [of "VRef 0" "VRef 1" False "\<lambda>v k. if k = ''toString'' then VRef 2 else VUndefined"
              "[Plain [(''toString'', VRef 2)], Plain [(''a'', VNum 1)], Other []]"]
        shallowEqual_characterisation
          [of "VRef 0" "VRef 1" False "\<lambda>v k. if k = ''toString'' then VRef 2 else VUndefined"
              "[Plain [(''toString'', VUndefined)], Plain [(''y'', VNum 2)], Other []]"]
  by (simp add: strictEqual_def R_keys_def js_read_def no_inherited_def lookup_def get_prop_def)

text \<open>
  C1. The specification says that \<^verbatim>\<open>shallowEqual({x:1}, {x:1,y:2})\<close> is true. The two
  objects have one and two own keys, so the comparison of the key counts fails and the
  call does not return true.
\<close>

theorem shallowEqual_key_count_counterexample:
  "shallowEqual True no_inherited [Plain [(''x'', VNum 1)], Plain [(''x'', VNum 1), (''y'', VNum 2)]]
     (VRef 0) (VRef 1) \<noteq> Inr True"
  by (simp add: shallowEqual_def Let_def strictEqual_def R_keys_def R_prop_def js_read_def
      no_inherited_def lookup_def get_prop_def)

text \<open>
  C1, amended. \<^verbatim>\<open>shallowEqual({x:1}, {x:1,y:2})\<close> returns false: wherever the two objects
  are in the store, whatever they inherit, and with either behaviour of ramda's \<^verbatim>\<open>prop\<close>.
\<close>

theorem shallowEqual_key_count_mismatch:
  assumes "lookup h a = Some (Plain [(''x'', VNum 1)])"
      and "lookup h b = Some (Plain [(''x'', VNum 1), (''y'', VNum 2)])"
  shows "shallowEqual safe inh h (VRef a) (VRef b) = Inr False"
proof -
  from assms have "a \<noteq> b" by auto
  with assms show ?thesis
    by (simp add: shallowEqual_def Let_def strictEqual_def R_keys_def R_prop_def js_read_def
        get_prop_def)
qed

theorem shallowEqual_key_count_mismatch_witness:
  "shallowEqual False no_inherited
     [Plain [(''x'', VNum 1)], Plain [(''x'', VNum 1), (''y'', VNum 2)]] (VRef 0) (VRef 1)
   = Inr False"
  using shallowEqual_key_count_mismatch
          [where h = "[Plain [(''x'', VNum 1)], Plain [(''x'', VNum 1), (''y'', VNum 2)]]"
             and a = 0 and b = 1 and safe = False and inh = no_inherited]
  by (simp add: lookup_def)

section \<open>makeAttrSetterPath: the claims\<close>

lemma attr_loop_segments:
  "i0 \<le> i \<Longrightarrow> i \<le> length parts \<Longrightarrow>
   attr_loop parts i0 i path = path @ segments (i = i0) (drop i parts)"
proof (induction parts i0 i path rule: attr_loop.induct)
  case (1 parts i0 i path)
  show ?case
  proof (cases "i < length parts")
    case True
    then have d: "drop i parts = parts ! i # drop (Suc i) parts"
      by (simp add: Cons_nth_drop_Suc)
    from True 1 show ?thesis
      by (subst attr_loop.simps) (auto simp: d split: part.splits)
  next
    case False
    with 1 show ?thesis by (subst attr_loop.simps) simp
  qed
qed

lemma attr_loop_beyond: "length parts \<le> i \<Longrightarrow> attr_loop parts i0 i path = path"
  by (subst attr_loop.simps) simp

lemma attr_loop_from:
  "attr_loop parts i0 i0 [] = segments True (drop i0 parts)"
proof (cases "i0 \<le> length parts")
  case True
  then show ?thesis by (simp add: attr_loop_segments)
next
  case False
  then show ?thesis by (simp add: attr_loop_beyond)
qed

lemma part_is_drop: "part_is (drop n parts) i s = part_is parts (n + i) s"
  by (auto simp: part_is_def)

lemma makeAttrSetterPath_refines: "makeAttrSetterPath parts = path_as_amended parts"
proof -
  define i1 :: nat where "i1 = (if part_is parts 0 ''_fullData'' then 0 + 2 else 0)"
  define i2 where "i2 = (if part_is parts i1 ''_fullInput'' then i1 + 1 else i1)"
  define i3 where "i3 = (if part_is parts i2 ''_fullLayout'' then i2 + 1 else i2)"
  have r1: "(if part_is parts 0 ''_fullData'' then drop 2 parts else parts) = drop i1 parts"
    by (simp add: i1_def numeral_2_eq_2)
  have r2: "(if part_is (drop i1 parts) 0 ''_fullInput'' then drop 1 (drop i1 parts) else drop i1 parts)
            = drop i2 parts"
    by (simp add: i2_def part_is_drop add.commute)
  have r3: "(if part_is (drop i2 parts) 0 ''_fullLayout'' then drop 1 (drop i2 parts) else drop i2 parts)
            = drop i3 parts"
    by (simp add: i3_def part_is_drop add.commute)
  have "strip_prefixes parts = drop i3 parts"
    unfolding strip_prefixes_def Let_def r1 r2 r3 ..
  moreover have "makeAttrSetterPath parts = attr_loop parts i3 i3 []"
    unfolding makeAttrSetterPath_def Let_def i1_def i2_def i3_def ..
  ultimately show ?thesis
    by (simp add: path_as_amended_def attr_loop_from)
qed

text \<open>
  C6. The specification strips \<^verbatim>\<open>_fullInput\<close> only when \<^verbatim>\<open>_fullData\<close> was not stripped, and
  brackets only single-element lists. The code tests the three prefixes one after the
  other (the second at the position the first left), and writes a list of any length as
  its first element in brackets: on \<^verbatim>\<open>['_fullData', 0, '_fullInput', 'a']\<close> it answers
  \<^verbatim>\<open>'a'\<close>, where the sentence gives \<^verbatim>\<open>'_fullInput.a'\<close>.
\<close>

theorem makeAttrSetterPath_else_counterexample:
  "makeAttrSetterPath [PStr ''_fullData'', PNum 0, PStr ''_fullInput'', PStr ''a''] = ''a''
   \<and> path_as_stated [PStr ''_fullData'', PNum 0, PStr ''_fullInput'', PStr ''a''] = ''_fullInput.a''
   \<and> makeAttrSetterPath [PStr ''_fullData'', PNum 0, PStr ''_fullInput'', PStr ''a'']
       \<noteq> path_as_stated [PStr ''_fullData'', PNum 0, PStr ''_fullInput'', PStr ''a'']"
  by (simp add: makeAttrSetterPath_def path_as_stated_def strip_as_stated_def part_is_def
      attr_loop.simps)

text \<open>
  C6, amended. \<^verbatim>\<open>makeAttrSetterPath(segments)\<close> strips two segments if the first is
  \<^verbatim>\<open>_fullData\<close>, then one if the next is \<^verbatim>\<open>_fullInput\<close>, then one if the next is
  \<^verbatim>\<open>_fullLayout\<close>; each remaining segment that is a number or a list is appended as the
  number, or the first element of the list, in brackets, and every other segment after a
  dot that is left out before the first remaining segment. In particular
  \<^verbatim>\<open>['_fullData', 0, 'transforms', 3, 'type']\<close> gives \<^verbatim>\<open>'transforms[3].type'\<close>.
\<close>

theorem makeAttrSetterPath_amended:
  "makeAttrSetterPath parts = path_as_amended parts
   \<and> makeAttrSetterPath
        [PStr ''_fullData'', PNum 0, PStr ''transforms'', PNum 3, PStr ''type'']
       = ''transforms[3].type''"
proof
  show "makeAttrSetterPath parts = path_as_amended parts"
    by (rule makeAttrSetterPath_refines)
  show "makeAttrSetterPath
          [PStr ''_fullData'', PNum 0, PStr ''transforms'', PNum 3, PStr ''type'']
        = ''transforms[3].type''"
    by (simp add: makeAttrSetterPath_def part_is_def attr_loop.simps string_of_int_def
        string_of_nat.simps digit_char_def)
qed

section \<open>align: the claims\<close>

lemma length_resize_at [simp]: "length (resize_at A n h) = length h"
  by (simp add: resize_at_def)

lemma nth_resize_at:
  "a < length h \<Longrightarrow>
   resize_at A n h ! a = (if a \<in> A then (case h ! a of Arr xs \<Rightarrow> Arr (resize xs n) | obj \<Rightarrow> obj) else h ! a)"
  by (simp add: resize_at_def)

lemma resize_at_empty [simp]: "resize_at {} n h = h"
  by (simp add: resize_at_def map_nth)

lemma resize_idem [simp]: "resize (resize xs n) n = resize xs n"
  by (simp add: resize_def)

lemma length_resize [simp]: "length (resize xs n) = n"
  by (simp add: resize_def)

lemma resize_pad: "length xs \<le> n \<Longrightarrow> resize xs n = xs @ replicate (n - length xs) None"
  by (simp add: resize_def)

lemma resize_at_insert:
  assumes "a < length h" "h ! a = Arr xs"
  shows "(resize_at A n h)[a := Arr (resize xs n)] = resize_at (insert a A) n h"
  using assms by (intro nth_equalityI) (auto simp: nth_resize_at nth_list_update)

lemma foldl_R_max: "foldl R_max a xs = Max (insert a (set xs))"
proof -
  have "(\<lambda>x s. R_max s x) = max"
    by (auto simp: R_max_def max_def fun_eq_iff)
  then have "foldl R_max a xs = fold max xs a"
    by (simp add: foldl_conv_fold)
  also have "\<dots> = Max (set (a # xs))"
    by (simp only: Max.set_eq_fold)
  finally show ?thesis by simp
qed

lemma present_all_refs:
  assumes "\<forall>e\<in>set es. \<exists>a. e = Some (VRef a) \<and> isArray h (VRef a)"
  shows "map_throwing (elem_length h) (present es) = Inr (map (\<lambda>e. array_length h (case e of Some (VRef a) \<Rightarrow> a)) es)"
  using assms
proof (induction es)
  case Nil
  then show ?case by (simp add: present_def map_filter_simps)
next
  case (Cons e es)
  from Cons.prems obtain a where e: "e = Some (VRef a)" and arr: "isArray h (VRef a)" by auto
  from arr have "elem_length h (VRef a) = Inr (array_length h a)"
    by (auto simp: isArray_def elem_length_def array_length_def split: option.splits jsobj.splits)
  with Cons e show ?case
    by (simp add: present_def map_filter_simps)
qed

lemma align_loop_resizes:
  assumes d: "lookup h0 d = Some (Arr es)"
      and els: "\<forall>e\<in>set es. \<exists>a. e = Some (VRef a) \<and> isArray h0 (VRef a)"
      and nd: "Some (VRef d) \<notin> set es"
      and i: "i \<le> length es"
  shows "align_loop (resize_at {a. Some (VRef a) \<in> set (take i es)} n h0) d n i
         = Returned () (resize_at {a. Some (VRef a) \<in> set es} n h0)"
  using i
proof (induction k \<equiv> "length es - i" arbitrary: i)
  case 0
  then have "take i es = es" by simp
  moreover have "array_length (resize_at {a. Some (VRef a) \<in> set es} n h0) d = length es"
    using d nd by (auto simp: array_length_def lookup_def nth_resize_at split: if_splits)
  ultimately show ?case
    using 0 by (subst align_loop.simps) simp
next
  case (Suc k)
  then have lt: "i < length es" by simp
  let ?A = "{a. Some (VRef a) \<in> set (take i es)}"
  let ?h = "resize_at ?A n h0"
  have dA: "d \<notin> ?A" using nd by (auto dest: in_set_takeD)
  have dh: "lookup ?h d = Some (Arr es)"
    using d dA by (auto simp: lookup_def nth_resize_at split: if_splits)
  from els lt obtain a where a: "es ! i = Some (VRef a)" and arr: "isArray h0 (VRef a)"
    by (metis nth_mem)
  from arr obtain xs where xs: "a < length h0" "h0 ! a = Arr xs"
    by (auto simp: isArray_def lookup_def split: option.splits jsobj.splits if_splits)
  have slot: "array_slot ?h d i = VRef a"
    using dh lt a by (simp add: array_slot_def get_slot_def)
  have "lookup ?h a = Some (Arr (if a \<in> ?A then resize xs n else xs))"
    using xs by (simp add: lookup_def nth_resize_at)
  then have "set_length ?h (VRef a) n = Inr (?h[a := Arr (resize xs n)])"
    by (auto simp: set_length_def)
  also have "?h[a := Arr (resize xs n)] = resize_at (insert a ?A) n h0"
    using xs by (rule resize_at_insert)
  also have "insert a ?A = {a. Some (VRef a) \<in> set (take (Suc i) es)}"
    using lt a by (auto simp: take_Suc_conv_app_nth)
  finally have step: "set_length ?h (VRef a) n
                      = Inr (resize_at {a. Some (VRef a) \<in> set (take (Suc i) es)} n h0)" .
  have "align_loop ?h d n i
        = align_loop (resize_at {a. Some (VRef a) \<in> set (take (Suc i) es)} n h0) d n (Suc i)"
    using dh lt by (subst align_loop.simps) (simp add: array_length_def slot step)
  also have "\<dots> = Returned () (resize_at {a. Some (VRef a) \<in> set es} n h0)"
    using Suc(2) lt by (intro Suc(1)) auto
  finally show ?case .
qed


text \<open>
  C8. The specification promises the padding for every sequence of sequences. When the
  outer sequence is one of its own elements the loop resizes the outer sequence itself,
  runs into the empty slot it has just created, and raises a \<^verbatim>\<open>TypeError\<close>: with
  \<^verbatim>\<open>S = [S, [1,2,3]]\<close>, \<^verbatim>\<open>align(S)\<close> does not return.
\<close>

theorem align_self_reference_counterexample:
  "align [Arr [Some (VRef 0), Some (VRef 1)], Arr [Some (VNum 1), Some (VNum 2), Some (VNum 3)]]
     (VRef 0)
   = Thrown TypeError
       [Arr [Some (VRef 0), Some (VRef 1), None], Arr [Some (VNum 1), Some (VNum 2), Some (VNum 3)]]"
  by (simp add: align_def lookup_def present_def map_filter_simps elem_length_def R_reduce_def
      R_max_def align_loop.simps array_length_def array_slot_def get_slot_def set_length_def
      resize_def)

text \<open>
  C8, amended. For every sequence of sequences \<open>S\<close> that is not an element of itself,
  \<^verbatim>\<open>align(S)\<close> returns the outer sequence it was given, with the same elements; every
  contained sequence keeps its content and is padded with empty slots to the maximum
  \<open>M\<close> of the lengths (never cut, since no length exceeds \<open>M\<close>); no other object of the
  store changes; and \<^verbatim>\<open>align([])\<close> changes nothing.
\<close>

theorem align_pads_to_max:
  assumes "lookup h d = Some (Arr es)"
      and "\<forall>e\<in>set es. \<exists>a. e = Some (VRef a) \<and> isArray h (VRef a)"
      and "Some (VRef d) \<notin> set es"
  shows "\<exists>h' M. align h (VRef d) = Returned (VRef d) h'
           \<and> M = Max (insert 0 (array_length h ` {a. Some (VRef a) \<in> set es}))
           \<and> length h' = length h
           \<and> lookup h' d = Some (Arr es)
           \<and> (\<forall>a. Some (VRef a) \<in> set es \<longrightarrow>
                 (\<exists>xs. lookup h a = Some (Arr xs) \<and> length xs \<le> M
                       \<and> lookup h' a = Some (Arr (xs @ replicate (M - length xs) None))
                       \<and> array_length h' a = M))
           \<and> (\<forall>a. Some (VRef a) \<notin> set es \<longrightarrow> lookup h' a = lookup h a)
           \<and> (es = [] \<longrightarrow> h' = h)"
proof -
  let ?A = "{a. Some (VRef a) \<in> set es}"
  let ?lens = "map (\<lambda>e. array_length h (case e of Some (VRef a) \<Rightarrow> a)) es"
  define M where "M = Max (insert 0 (array_length h ` ?A))"
  let ?h' = "resize_at ?A M h"
  have "set ?lens = array_length h ` ?A"
  proof (intro equalityI subsetI)
    fix n assume "n \<in> set ?lens"
    then obtain e where e: "e \<in> set es" "n = array_length h (case e of Some (VRef a) \<Rightarrow> a)"
      by auto
    with assms(2) obtain a where "e = Some (VRef a)" by blast
    with e show "n \<in> array_length h ` ?A" by auto
  next
    fix n assume "n \<in> array_length h ` ?A"
    then obtain a where "Some (VRef a) \<in> set es" "n = array_length h a" by auto
    then show "n \<in> set ?lens" by (force simp: image_iff)
  qed
  then have maxlen: "R_reduce R_max 0 ?lens = M"
    by (simp add: R_reduce_def foldl_R_max M_def)
  have "align_loop h d M 0 = Returned () ?h'"
    using align_loop_resizes [OF assms, of 0 M] by simp
  then have ret: "align h (VRef d) = Returned (VRef d) ?h'"
    using assms(1) by (simp add: align_def present_all_refs [OF assms(2)] maxlen)
  have fin: "finite (array_length h ` ?A)"
  proof (rule finite_surj [of "set es"])
    show "array_length h ` ?A \<subseteq> (\<lambda>e. array_length h (case e of Some (VRef a) \<Rightarrow> a)) ` set es"
      by (force simp: image_iff)
  qed simp
  have outer: "lookup ?h' d = Some (Arr es)"
    using assms(1,3) by (auto simp: lookup_def nth_resize_at split: if_splits)
  have inner: "\<exists>xs. lookup h a = Some (Arr xs) \<and> length xs \<le> M
                 \<and> lookup ?h' a = Some (Arr (xs @ replicate (M - length xs) None))
                 \<and> array_length ?h' a = M"
    if a: "Some (VRef a) \<in> set es" for a
  proof -
    from assms(2) a have "isArray h (VRef a)" by auto
    then obtain xs where xs: "a < length h" "h ! a = Arr xs"
      by (auto simp: isArray_def lookup_def split: option.splits jsobj.splits if_splits)
    then have "array_length h a = length xs" by (simp add: array_length_def lookup_def)
    with a fin have le: "length xs \<le> M"
      unfolding M_def by (metis (mono_tags, lifting) Max_ge finite_insert imageI insertI2 mem_Collect_eq)
    have "lookup ?h' a = Some (Arr (resize xs M))"
      using xs a by (simp add: lookup_def nth_resize_at)
    with xs le show ?thesis
      by (auto simp: lookup_def resize_pad array_length_def)
  qed
  have frame: "lookup ?h' a = lookup h a" if "Some (VRef a) \<notin> set es" for a
    using that by (simp add: lookup_def nth_resize_at)
  have empty: "?h' = h" if "es = []"
    using that by simp
  from ret outer inner frame empty show ?thesis
    unfolding M_def by (intro exI [of _ ?h'] exI [of _ M]) (simp add: M_def)
qed

theorem align_pads_to_max_witness:
  "\<exists>h'. align [Arr [Some (VRef 1), Some (VRef 2)], Arr [Some (VNum 1)],
               Arr [Some (VNum 1), Some (VNum 2), Some (VNum 3)]] (VRef 0) = Returned (VRef 0) h'
        \<and> length h' = 3
        \<and> lookup h' 0 = Some (Arr [Some (VRef 1), Some (VRef 2)])"
  using align_pads_to_max
          [of "[Arr [Some (VRef 1), Some (VRef 2)], Arr [Some (VNum 1)],
                Arr [Some (VNum 1), Some (VNum 2), Some (VNum 3)]]"
              0 "[Some (VRef 1), Some (VRef 2)]"]
  by (auto simp: lookup_def isArray_def)

section \<open>walkObject: the claims\<close>

lemma doArrayWalk_iff:
  "doArrayWalk h key v wa wamk = (isArray h v \<and> (wa \<or> (\<exists>ks. wamk = Some ks \<and> key \<in> set ks)))"
  by (auto simp: doArrayWalk_def split: option.splits)

lemma isArray_not_plain: "isArray h v \<Longrightarrow> \<not> isPlainObject h v"
  by (auto simp: isArray_def isPlainObject_def split: jsval.splits option.splits jsobj.splits)

lemmas walk_eval =
  walkObject_def walkObject_rec_def R_keys_def lookup_def isPlainObject_def isArray_def
  getPath_def path_get_def path_set_def strictEqual_def recording_def js_get_def get_prop_def
  doArrayWalk_def default_config_def Let_def get_slot_def array_index_def digit_val_def
  string_of_nat.simps digit_char_def

subsection \<open>The calls of a walk and the vetoes\<close>

lemma distinct_own_keys_Arr: "distinct (own_keys (Arr es))"
  by (simp add: distinct_map inj_on_def string_of_nat_inj)





lemma scoped_length:
  "scoped p ks calls \<Longrightarrow> (key, PathArr q, r) \<in> set calls \<Longrightarrow> length p \<le> length q"
proof -
  assume s: "scoped p ks calls" and m: "(key, PathArr q, r) \<in> set calls"
  from s m have "(q = p \<and> key \<in> set ks) \<or> (\<exists>k\<in>set ks. take (Suc (length p)) q = p @ [k])"
    by (fastforce simp: scoped_def)
  then show ?thesis
  proof
    assume "q = p \<and> key \<in> set ks" then show ?thesis by simp
  next
    assume "\<exists>k\<in>set ks. take (Suc (length p)) q = p @ [k]"
    then obtain k where "take (Suc (length p)) q = p @ [k]" by blast
    then have "length (take (Suc (length p)) q) = Suc (length p)" by simp
    then show ?thesis by (simp add: min_def split: if_splits)
  qed
qed

lemma scoped_append: "scoped p ks (M1 @ M2) = (scoped p ks M1 \<and> scoped p ks M2)"
  by (auto simp: scoped_def)

lemma scoped_Cons: "scoped p ks (c # M) = (scoped p ks [c] \<and> scoped p ks M)"
  by (auto simp: scoped_def)





























text \<open>
  C4. An array stored at a key the visitor did not veto is walked into exactly when
  \<open>walkArrays\<close> is set or the key is one of \<open>walkArraysMatchingKeys\<close>; otherwise the walk goes on
  with the siblings, as after a leaf. Walking \<^verbatim>\<open>{a: {b: 1}, c: [1,2]}\<close> with the default
  configuration visits \<^verbatim>\<open>a\<close>, \<^verbatim>\<open>b\<close> (under \<^verbatim>\<open>a\<close>) and \<^verbatim>\<open>c\<close>, and with \<^verbatim>\<open>walkArrays: true\<close> also the
  indices \<^verbatim>\<open>0\<close> and \<^verbatim>\<open>1\<close> under \<^verbatim>\<open>c\<close>.
\<close>

theorem arrays_walked_by_policy:
  "doArrayWalk h key v wa wamk = (isArray h v \<and> (wa \<or> (\<exists>ks. wamk = Some ks \<and> key \<in> set ks)))
   \<and> (path_get (fst st) path object key = Inr p
        \<and> callback key object p st = Returned r st1 \<and> \<not> truthy r
        \<and> isArray (fst st1) (js_get (fst st1) object key)
        \<and> \<not> (walkArrays cfg \<or> (\<exists>ks. walkArraysMatchingKeys cfg = Some ks \<and> key \<in> set ks))
      \<longrightarrow> walk_keys n object callback path cfg (key # keys) st
          = walk_keys n object callback path cfg keys st1)
   \<and> (path_get (fst st) path object key = Inr p
        \<and> callback key object p st = Returned r st1 \<and> \<not> truthy r
        \<and> isArray (fst st1) (js_get (fst st1) object key)
        \<and> (walkArrays cfg \<or> (\<exists>ks. walkArraysMatchingKeys cfg = Some ks \<and> key \<in> set ks))
        \<and> path_set (fst st1) path object key = Inr path'
      \<longrightarrow> walk_keys (Suc m) object callback path cfg (key # keys) st
          = (case walk_keys m (js_get (fst st1) object key) callback path' cfg
                    (R_keys (fst st1) (js_get (fst st1) object key)) st1 of
               Returned u st2 \<Rightarrow> walk_keys (Suc m) object callback path cfg keys st2
             | Thrown e st2 \<Rightarrow> Thrown e st2
             | Diverged \<Rightarrow> Diverged))
   \<and> walkObject 1 (VRef 0) (recording (\<lambda>k. False)) default_config
        ([Plain [(''a'', VRef 1), (''c'', VRef 2)], Plain [(''b'', VNum 1)],
          Arr [Some (VNum 1), Some (VNum 2)]], [])
      = Returned ()
          ([Plain [(''a'', VRef 1), (''c'', VRef 2)], Plain [(''b'', VNum 1)],
            Arr [Some (VNum 1), Some (VNum 2)]],
           [(''a'', PathArr []), (''b'', PathArr [''a'']), (''c'', PathArr [])])
   \<and> walkObject 1 (VRef 0) (recording (\<lambda>k. False)) (default_config\<lparr>walkArrays := True\<rparr>)
        ([Plain [(''a'', VRef 1), (''c'', VRef 2)], Plain [(''b'', VNum 1)],
          Arr [Some (VNum 1), Some (VNum 2)]], [])
      = Returned ()
          ([Plain [(''a'', VRef 1), (''c'', VRef 2)], Plain [(''b'', VNum 1)],
            Arr [Some (VNum 1), Some (VNum 2)]],
           [(''a'', PathArr []), (''b'', PathArr [''a'']), (''c'', PathArr []),
            (''0'', PathArr [''c'']), (''1'', PathArr [''c''])])"
proof (intro conjI impI)
  show "doArrayWalk h key v wa wamk
        = (isArray h v \<and> (wa \<or> (\<exists>ks. wamk = Some ks \<and> key \<in> set ks)))"
    by (rule doArrayWalk_iff)
next
  assume "path_get (fst st) path object key = Inr p
        \<and> callback key object p st = Returned r st1 \<and> \<not> truthy r
        \<and> isArray (fst st1) (js_get (fst st1) object key)
        \<and> \<not> (walkArrays cfg \<or> (\<exists>ks. walkArraysMatchingKeys cfg = Some ks \<and> key \<in> set ks))"
  then show "walk_keys n object callback path cfg (key # keys) st
             = walk_keys n object callback path cfg keys st1"
    by (auto simp: doArrayWalk_iff isArray_not_plain Let_def)
next
  assume "path_get (fst st) path object key = Inr p
        \<and> callback key object p st = Returned r st1 \<and> \<not> truthy r
        \<and> isArray (fst st1) (js_get (fst st1) object key)
        \<and> (walkArrays cfg \<or> (\<exists>ks. walkArraysMatchingKeys cfg = Some ks \<and> key \<in> set ks))
        \<and> path_set (fst st1) path object key = Inr path'"
  then show "walk_keys (Suc m) object callback path cfg (key # keys) st
          = (case walk_keys m (js_get (fst st1) object key) callback path' cfg
                    (R_keys (fst st1) (js_get (fst st1) object key)) st1 of
               Returned u st2 \<Rightarrow> walk_keys (Suc m) object callback path cfg keys st2
             | Thrown e st2 \<Rightarrow> Thrown e st2
             | Diverged \<Rightarrow> Diverged)"
    by (auto simp: doArrayWalk_iff isArray_not_plain Let_def)
next
  show "walkObject 1 (VRef 0) (recording (\<lambda>k. False)) default_config
        ([Plain [(''a'', VRef 1), (''c'', VRef 2)], Plain [(''b'', VNum 1)],
          Arr [Some (VNum 1), Some (VNum 2)]], [])
      = Returned ()
          ([Plain [(''a'', VRef 1), (''c'', VRef 2)], Plain [(''b'', VNum 1)],
            Arr [Some (VNum 1), Some (VNum 2)]],
           [(''a'', PathArr []), (''b'', PathArr [''a'']), (''c'', PathArr [])])"
    by (simp add: walk_eval)
next
  show "walkObject 1 (VRef 0) (recording (\<lambda>k. False)) (default_config\<lparr>walkArrays := True\<rparr>)
        ([Plain [(''a'', VRef 1), (''c'', VRef 2)], Plain [(''b'', VNum 1)],
          Arr [Some (VNum 1), Some (VNum 2)]], [])
      = Returned ()
          ([Plain [(''a'', VRef 1), (''c'', VRef 2)], Plain [(''b'', VNum 1)],
            Arr [Some (VNum 1), Some (VNum 2)]],
           [(''a'', PathArr []), (''b'', PathArr [''a'']), (''c'', PathArr []),
            (''0'', PathArr [''c'']), (''1'', PathArr [''c''])])"
    by (simp add: walk_eval upt_rec)
qed

theorem arrays_walked_by_policy_witness:
  "walk_keys 1 (VRef 0) (recording (\<lambda>k. False)) (getPath VUndefined None)
     (default_config\<lparr>walkArraysMatchingKeys := Some [''x'']\<rparr>)
     [''c'', ''z''] ([Plain [(''c'', VRef 1), (''z'', VNum 2)], Arr [Some (VNum 1)]], [])
   = walk_keys 1 (VRef 0) (recording (\<lambda>k. False)) (getPath VUndefined None)
       (default_config\<lparr>walkArraysMatchingKeys := Some [''x'']\<rparr>)
       [''z''] ([Plain [(''c'', VRef 1), (''z'', VNum 2)], Arr [Some (VNum 1)]], [(''c'', PathArr [])])"
  by (rule arrays_walked_by_policy
          [where st = "([Plain [(''c'', VRef 1), (''z'', VNum 2)], Arr [Some (VNum 1)]], [])"
             and path = "getPath VUndefined None" and object = "VRef 0" and key = "''c''"
             and p = "PathArr []" and callback = "recording (\<lambda>k. False)" and r = "VBool False"
             and ?st1.0 = "([Plain [(''c'', VRef 1), (''z'', VNum 2)], Arr [Some (VNum 1)]],
                            [(''c'', PathArr [])])"
             and cfg = "default_config\<lparr>walkArraysMatchingKeys := Some [''x'']\<rparr>"
             and n = 1 and keys = "[''z'']", THEN conjunct2, THEN conjunct1, THEN mp])
     (simp add: path_get_def getPath_def strictEqual_def recording_def js_get_def lookup_def
        get_prop_def isArray_def default_config_def)

text \<open>
  C5. On a top-level input that is neither a plain object nor an array, \<^verbatim>\<open>walkObject\<close> raises
  its error in the state it was called in: the visitor has not run. So does \<^verbatim>\<open>copyObject\<close>,
  after it has allocated the empty output object: the state of its callback is the
  initial one.
\<close>

theorem invalid_input_raises_at_once:
  "(\<not> isPlainObject (fst st) input \<and> \<not> isArray (fst st) input
      \<longrightarrow> walkObject n input visitor cfg st = Thrown InvalidInput st)
   \<and> (\<not> isPlainObject h input \<and> \<not> isArray h input \<and> valid_value h input
      \<longrightarrow> copyObject n h input callback u = Thrown InvalidInput (h @ [Plain []], u))"
proof (intro conjI impI)
  assume "\<not> isPlainObject (fst st) input \<and> \<not> isArray (fst st) input"
  then show "walkObject n input visitor cfg st = Thrown InvalidInput st"
    by (simp add: walkObject_def)
next
  assume a: "\<not> isPlainObject h input \<and> \<not> isArray h input \<and> valid_value h input"
  then have "\<not> isPlainObject (h @ [Plain []]) input \<and> \<not> isArray (h @ [Plain []]) input"
    by (auto simp: isPlainObject_def isArray_def valid_value_def lookup_def nth_append
             split: jsval.splits option.splits jsobj.splits if_splits)
  with a show "copyObject n h input callback u = Thrown InvalidInput (h @ [Plain []], u)"
    by (simp add: copyObject_def alloc_def walkObject_def)
qed

theorem invalid_input_raises_at_once_witness:
  "walkObject 3 (VStr ''text'') (recording (\<lambda>k. False)) default_config ([Other []], [])
     = Thrown InvalidInput ([Other []], [])
   \<and> copyObject 3 [Other []] (VRef 0) always_true () = Thrown InvalidInput ([Other [], Plain []], ())"
  using invalid_input_raises_at_once
          [where st = "([Other []], [])" and input = "VStr ''text''" and n = 3
             and visitor = "recording (\<lambda>k. False)" and cfg = default_config
             and h = "[Other []]" and u = "()"]
        invalid_input_raises_at_once
          [where h = "[Other []]" and input = "VRef 0" and n = 3 and callback = always_true
             and u = "()" and st = "([Other []], ())"]
  by (simp add: isPlainObject_def isArray_def lookup_def valid_value_def)

text \<open>
  C9. The specification has an unrecognised \<open>pathType\<close> surface as an error. The error is
  raised by the first path computation, which happens at the first key; on an input
  without keys no path is computed, and \<^verbatim>\<open>walkObject({}, visitor, {pathType: 'flattened'})\<close>
  returns without an error.
\<close>

theorem unrecognised_pathType_counterexample:
  "walkObject 0 (VRef 0) (recording (\<lambda>k. False)) (default_config\<lparr>pathType := VStr ''flattened''\<rparr>)
     ([Plain []], [])
   = Returned () ([Plain []], [])"
  by (simp add: walkObject_def walkObject_rec_def R_keys_def lookup_def isPlainObject_def)

text \<open>
  C9, amended. When \<^verbatim>\<open>walkObject\<close> is called on a plain object or array that has at least
  one own key, with a \<open>pathType\<close> that is neither absent nor one of the two recognised
  modes, the error is raised at the first path computation, in the state the walk was
  called in: no call of the visitor has been made. On an input without keys the walk
  returns at once, also without a call of the visitor.
\<close>

theorem unrecognised_pathType_raises_at_first_key:
  assumes "pathType cfg \<noteq> VUndefined" "pathType cfg \<noteq> VStr ''array''"
          "pathType cfg \<noteq> VStr ''nestedProperty''"
      and "isPlainObject (fst st) input \<or> isArray (fst st) input"
  shows "walkObject n input visitor cfg st =
         (if R_keys (fst st) input = [] then Returned () st
          else Thrown (UnrecognizedPathType (pathType cfg)) st)"
proof (cases "R_keys (fst st) input")
  case Nil
  with assms(4) show ?thesis by (auto simp: walkObject_def walkObject_rec_def)
next
  case (Cons k ks)
  with assms show ?thesis
    by (auto simp: walkObject_def walkObject_rec_def Let_def path_get_def path_set_def
        getPath_def strictEqual_def)
qed

theorem unrecognised_pathType_raises_at_first_key_witness:
  "walkObject 2 (VRef 0) (recording (\<lambda>k. False)) (default_config\<lparr>pathType := VStr ''flattened''\<rparr>)
     ([Plain [(''a'', VNum 1)]], [])
   = Thrown (UnrecognizedPathType (VStr ''flattened'')) ([Plain [(''a'', VNum 1)]], [])"
  using unrecognised_pathType_raises_at_first_key
          [where cfg = "default_config\<lparr>pathType := VStr ''flattened''\<rparr>"
             and st = "([Plain [(''a'', VNum 1)]], [])" and input = "VRef 0" and n = 2
             and visitor = "recording (\<lambda>k. False)"]
  by (simp add: default_config_def isPlainObject_def lookup_def R_keys_def)

end
